theory Spec2Isabelle
  imports Main "HOL-Library.AList"
begin

section \<open>The upload placeholder plugin\<close>

text \<open>
  A shallow embedding of \<^verbatim>\<open>file-placeholder-plugin.ts\<close>: the plugin state
  (\<^verbatim>\<open>UploadPlaceholderPluginData\<close>), its \<^verbatim>\<open>init\<close> and \<^verbatim>\<open>apply\<close> functions
  and the three query functions over an editor state.

  The plugin is an adapter over the host editing engine. The engine's values that the
  plugin touches are modelled by what the plugin observes of them:
  \<^item> a position is a JavaScript \<^verbatim>\<open>number\<close>, here an \<^typ>\<open>int\<close>;
  \<^item> the payload is \<^verbatim>\<open>any\<close>, here a type variable;
  \<^item> \<^verbatim>\<open>undefined\<close> as a result is \<^const>\<open>None\<close>.
\<close>

subsection \<open>Values of the host engine\<close>

text \<open>
  \<^verbatim>\<open>Mapping.mapResult(pos, assoc)\<close> answers with the mapped position and whether the
  content at the position was deleted by the change.
\<close>

record MapResult =
  pos :: int
  deleted :: bool

text \<open>
  A widget decoration, as built by \<^verbatim>\<open>Decoration.widget(pos, dom, {id})\<close>: its \<^verbatim>\<open>from\<close>
  (a widget has \<^verbatim>\<open>to = from\<close>) and the \<^verbatim>\<open>id\<close> field of its spec. The DOM element of the
  widget, which \<^verbatim>\<open>apply\<close> makes with \<^verbatim>\<open>document.createElement\<close>, is never read by the
  plugin; the browser's \<^verbatim>\<open>document\<close> is taken to be there.
\<close>

record Decoration =
  deco_from :: int
  spec_id :: string

definition Decoration_widget :: "int \<Rightarrow> string \<Rightarrow> Decoration" where
  "Decoration_widget p i = \<lparr>deco_from = p, spec_id = i\<rparr>"

text \<open>
  A \<^verbatim>\<open>DecorationSet\<close> is a persistent collection of decorations: every operation returns
  a new set and leaves the old one as it was. It is modelled as the list of its
  decorations; a set may hold several decorations with the same spec. The order of the
  list stands for the order in which the engine's \<^verbatim>\<open>find\<close> reports decorations; the
  properties below look a position up only for an identifier with at most one decoration,
  where the order plays no part.
  \<^item> \<^verbatim>\<open>set.map(mapping, doc)\<close> sends each decoration through the mapping; a widget whose
    position the mapping reports as deleted is dropped from the result (the engine's
    \<^verbatim>\<open>onRemove\<close> option of \<^verbatim>\<open>map\<close> is called for exactly these), every other widget
    moves to the mapped position. A widget made without a \<^verbatim>\<open>side\<close> is mapped with
    \<^verbatim>\<open>assoc = 1\<close>, which is the \<^typ>\<open>MapResult\<close> a transaction's mapping gives here.
  \<^item> \<^verbatim>\<open>set.find(undefined, undefined, predicate)\<close> returns the decorations whose spec
    satisfies the predicate.
  \<^item> \<^verbatim>\<open>set.add(doc, decorations)\<close> returns the set with the decorations added.
  \<^item> \<^verbatim>\<open>set.remove(decorations)\<close> returns the set without the given decorations.
\<close>

type_synonym DecorationSet = "Decoration list"

definition DecorationSet_empty :: DecorationSet where
  "DecorationSet_empty = []"

definition map_widget :: "(int \<Rightarrow> MapResult) \<Rightarrow> Decoration \<Rightarrow> Decoration option" where
  "map_widget m d =
     (let r = m (deco_from d)
      in if deleted r then None else Some (d\<lparr>deco_from := pos r\<rparr>))"

definition DecorationSet_map :: "(int \<Rightarrow> MapResult) \<Rightarrow> DecorationSet \<Rightarrow> DecorationSet" where
  "DecorationSet_map m s = List.map_filter (map_widget m) s"

definition DecorationSet_find :: "(string \<Rightarrow> bool) \<Rightarrow> DecorationSet \<Rightarrow> Decoration list" where
  "DecorationSet_find predicate s = filter (\<lambda>d. predicate (spec_id d)) s"

definition DecorationSet_add :: "DecorationSet \<Rightarrow> Decoration list \<Rightarrow> DecorationSet" where
  "DecorationSet_add s ds = s @ ds"

definition DecorationSet_remove :: "DecorationSet \<Rightarrow> Decoration list \<Rightarrow> DecorationSet" where
  "DecorationSet_remove s ds = filter (\<lambda>d. d \<notin> set ds) s"

subsection \<open>JavaScript \<^verbatim>\<open>Map\<close> objects in a store\<close>

text \<open>
  A \<^verbatim>\<open>Map<string, any>\<close> keeps its entries in insertion order: an association list.
  \<^verbatim>\<open>set\<close> replaces the value of a key that is present and appends a new key otherwise
  (\<^const>\<open>AList.update\<close>), \<^verbatim>\<open>delete\<close> drops the key (\<^const>\<open>AList.delete\<close>), \<^verbatim>\<open>get\<close> is
  \<^const>\<open>map_of\<close> and \<^verbatim>\<open>size\<close> is the length.

  A \<^verbatim>\<open>Map\<close> is an object: the plugin state holds a reference to it and \<^verbatim>\<open>set\<close> and
  \<^verbatim>\<open>delete\<close> change the object in place. The store maps each reference to the current
  contents of its object; \<^verbatim>\<open>new Map()\<close> takes the next unused reference.
\<close>

type_synonym 'p Map = "(string \<times> 'p) list"

type_synonym ref = nat

record 'p store =
  cells :: "ref \<Rightarrow> 'p Map"
  next_ref :: ref

definition new_Map :: "'p store \<Rightarrow> ref \<times> 'p store" where
  "new_Map h = (next_ref h, h\<lparr>cells := (cells h)(next_ref h := []), next_ref := Suc (next_ref h)\<rparr>)"

definition Map_set :: "'p store \<Rightarrow> ref \<Rightarrow> string \<Rightarrow> 'p \<Rightarrow> 'p store" where
  "Map_set h r k v = h\<lparr>cells := (cells h)(r := AList.update k v (cells h r))\<rparr>"

definition Map_delete :: "'p store \<Rightarrow> ref \<Rightarrow> string \<Rightarrow> 'p store" where
  "Map_delete h r k = h\<lparr>cells := (cells h)(r := AList.delete k (cells h r))\<rparr>"

definition Map_get :: "'p store \<Rightarrow> ref \<Rightarrow> string \<Rightarrow> 'p option" where
  "Map_get h r k = map_of (cells h r) k"

definition Map_size :: "'p store \<Rightarrow> ref \<Rightarrow> nat" where
  "Map_size h r = length (cells h r)"

definition Map_keys :: "'p store \<Rightarrow> ref \<Rightarrow> string list" where
  "Map_keys h r = map fst (cells h r)"

subsection \<open>Actions and transactions\<close>

text \<open>
  Modelled from the spec: the module \<^verbatim>\<open>file-placeholder-actions\<close>, which declares
  \<^verbatim>\<open>ActionType\<close> and \<^verbatim>\<open>PlaceholderPluginAction\<close>, is not among the sources. The
  specification gives the action as a tagged value, one of add (identifier, position,
  payload) and remove (identifier); \<^verbatim>\<open>apply\<close> reads \<^verbatim>\<open>action.type\<close>, \<^verbatim>\<open>action.id\<close>,
  \<^verbatim>\<open>action.pos\<close> and \<^verbatim>\<open>action.payload\<close>.
\<close>

datatype 'p PlaceholderPluginAction =
    ADD_PLACEHOLDER string int 'p
  | REMOVE_PLACEHOLDER string

text \<open>
  Of a transaction the plugin reads \<^verbatim>\<open>tr.mapping\<close> and the metadata stored under the
  plugin's key (\<^verbatim>\<open>null\<close> or \<^verbatim>\<open>undefined\<close> when nothing was attached: \<^const>\<open>None\<close>).
  \<^verbatim>\<open>tr.doc\<close> only tells the decoration set where in its tree to file a decoration.
\<close>

record 'p Transaction =
  mapping :: "int \<Rightarrow> MapResult"
  meta :: "'p PlaceholderPluginAction option"

definition getMeta :: "'p Transaction \<Rightarrow> 'p PlaceholderPluginAction option" where
  "getMeta tr = meta tr"

definition setUploadPlaceholderAction ::
    "'p Transaction \<Rightarrow> 'p PlaceholderPluginAction \<Rightarrow> 'p Transaction" where
  "setUploadPlaceholderAction tr action = tr\<lparr>meta := Some action\<rparr>"

subsection \<open>The plugin state and its two functions\<close>

text \<open>
  The plugin's \<^verbatim>\<open>state\<close> field has the two functions \<^verbatim>\<open>init\<close> and \<^verbatim>\<open>apply\<close>; they are
  \<open>state_init\<close> and \<open>state_apply\<close> here.
\<close>

record UploadPlaceholderPluginData =
  set_deco :: DecorationSet
  payloads :: ref

text \<open>\<^verbatim>\<open>init\<close>: the empty decoration set and a new, empty \<^verbatim>\<open>Map\<close>.\<close>

definition state_init :: "'p store \<Rightarrow> UploadPlaceholderPluginData \<times> 'p store" where
  "state_init h =
     (case new_Map h of (r, h') \<Rightarrow> (\<lparr>set_deco = DecorationSet_empty, payloads = r\<rparr>, h'))"

text \<open>
  \<^verbatim>\<open>apply(tr, {set, payloads})\<close>: the local \<^verbatim>\<open>set\<close> is rebound, the \<^verbatim>\<open>Map\<close> behind
  \<^verbatim>\<open>payloads\<close> is changed in the store, and the result holds the same reference.
\<close>

definition state_apply ::
    "'p Transaction \<Rightarrow> UploadPlaceholderPluginData \<Rightarrow> 'p store
      \<Rightarrow> UploadPlaceholderPluginData \<times> 'p store" where
  "state_apply tr data h =
     (let s = DecorationSet_map (mapping tr) (set_deco data);
          p = payloads data
      in case getMeta tr of
           None \<Rightarrow> (\<lparr>set_deco = s, payloads = p\<rparr>, h)
         | Some (ADD_PLACEHOLDER action_id action_pos action_payload) \<Rightarrow>
             (let deco = Decoration_widget action_pos action_id;
                  s' = DecorationSet_add s [deco];
                  h' = Map_set h p action_id action_payload
              in (\<lparr>set_deco = s', payloads = p\<rparr>, h'))
         | Some (REMOVE_PLACEHOLDER action_id) \<Rightarrow>
             (let s' = DecorationSet_remove s
                         (DecorationSet_find (\<lambda>i. i = action_id) s);
                  h' = Map_delete h p action_id
              in (\<lparr>set_deco = s', payloads = p\<rparr>, h')))"

subsection \<open>Queries over an editor state\<close>

text \<open>
  \<^verbatim>\<open>key.getState(state)\<close> is the plugin's field of the editor state, or \<^verbatim>\<open>undefined\<close>
  when the plugin is not part of the editor.
\<close>

record EditorState =
  plugin_field :: "UploadPlaceholderPluginData option"

definition key_getState :: "EditorState \<Rightarrow> UploadPlaceholderPluginData option" where
  "key_getState state = plugin_field state"

definition findUploadPlaceholderPos :: "EditorState \<Rightarrow> string \<Rightarrow> int option" where
  "findUploadPlaceholderPos state i =
     (case key_getState state of
        None \<Rightarrow> None
      | Some data \<Rightarrow>
          (case DecorationSet_find (\<lambda>j. j = i) (set_deco data) of
             [] \<Rightarrow> None
           | d # _ \<Rightarrow> Some (deco_from d)))"

definition findUploadPlaceholderPayload ::
    "'p store \<Rightarrow> EditorState \<Rightarrow> string \<Rightarrow> 'p option" where
  "findUploadPlaceholderPayload h state i =
     (case key_getState state of
        None \<Rightarrow> None
      | Some data \<Rightarrow> Map_get h (payloads data) i)"

definition hasUploadingFile :: "'p store \<Rightarrow> EditorState \<Rightarrow> bool" where
  "hasUploadingFile h state =
     (let placeholderCount =
            (case key_getState state of None \<Rightarrow> 0 | Some data \<Rightarrow> Map_size h (payloads data))
      in placeholderCount > 0)"

subsection \<open>Runs of transactions\<close>

text \<open>The editor applies its transactions one after the other, each to the state the last one gave.\<close>

fun run ::
    "'p Transaction list \<Rightarrow> UploadPlaceholderPluginData \<Rightarrow> 'p store
      \<Rightarrow> UploadPlaceholderPluginData \<times> 'p store" where
  "run [] data h = (data, h)"
| "run (tr # trs) data h = (case state_apply tr data h of (data', h') \<Rightarrow> run trs data' h')"

definition run_init ::
    "'p Transaction list \<Rightarrow> 'p store \<Rightarrow> UploadPlaceholderPluginData \<times> 'p store" where
  "run_init trs h = (case state_init h of (data, h') \<Rightarrow> run trs data h')"

text \<open>The editor state whose plugin field holds the given plugin state.\<close>

definition editor :: "UploadPlaceholderPluginData \<Rightarrow> EditorState" where
  "editor data = \<lparr>plugin_field = Some data\<rparr>"

subsection \<open>Concrete mappings of the host engine\<close>

text \<open>
  The mapping of a transaction that leaves the document as it is, of one that inserts
  \<open>n\<close> characters at position \<open>q\<close>, and of one that deletes the range from \<open>a\<close> to
  \<open>b\<close>, each as \<^verbatim>\<open>mapResult(p, 1)\<close> of the engine's step map answers: a position from an
  insertion point on moves right by the inserted length; a position inside a deleted
  range (its start included, its end not) is reported as deleted.
\<close>

definition identity_mapping :: "int \<Rightarrow> MapResult" where
  "identity_mapping p = \<lparr>pos = p, deleted = False\<rparr>"

definition insert_mapping :: "int \<Rightarrow> int \<Rightarrow> int \<Rightarrow> MapResult" where
  "insert_mapping q n p = \<lparr>pos = (if p < q then p else p + n), deleted = False\<rparr>"

definition delete_mapping :: "int \<Rightarrow> int \<Rightarrow> int \<Rightarrow> MapResult" where
  "delete_mapping a b p =
     (if p < a then \<lparr>pos = p, deleted = False\<rparr>
      else if p < b then \<lparr>pos = a, deleted = True\<rparr>
      else \<lparr>pos = p - (b - a), deleted = False\<rparr>)"

definition empty_store :: "'p store" where
  "empty_store = \<lparr>cells = (\<lambda>_. []), next_ref = 0\<rparr>"

subsection \<open>The vocabulary of the specification\<close>

text \<open>
  The decorations and the payload entries a plugin state holds for an identifier, and the
  identifiers that have a decoration or a payload entry.
\<close>

definition decorations_of :: "string \<Rightarrow> UploadPlaceholderPluginData \<Rightarrow> Decoration list" where
  "decorations_of i data = DecorationSet_find (\<lambda>j. j = i) (set_deco data)"

definition payload_entries_of ::
    "string \<Rightarrow> 'p store \<Rightarrow> UploadPlaceholderPluginData \<Rightarrow> (string \<times> 'p) list" where
  "payload_entries_of i h data = filter (\<lambda>e. fst e = i) (cells h (payloads data))"

definition decoration_ids :: "UploadPlaceholderPluginData \<Rightarrow> string set" where
  "decoration_ids data = set (map spec_id (set_deco data))"

definition payload_ids :: "'p store \<Rightarrow> UploadPlaceholderPluginData \<Rightarrow> string set" where
  "payload_ids h data = set (Map_keys h (payloads data))"

text \<open>
  The identifiers that are registered after a sequence of transactions, read off the
  attached actions alone: an add registers its identifier, a remove unregisters it, a
  transaction without an action changes nothing.
\<close>

fun note_action :: "'p PlaceholderPluginAction option \<Rightarrow> string set \<Rightarrow> string set" where
  "note_action None R = R"
| "note_action (Some (ADD_PLACEHOLDER i p v)) R = insert i R"
| "note_action (Some (REMOVE_PLACEHOLDER i)) R = R - {i}"

definition registered_from :: "string set \<Rightarrow> 'p Transaction list \<Rightarrow> string set" where
  "registered_from R trs = fold (\<lambda>tr. note_action (getMeta tr)) trs R"

definition registered :: "'p Transaction list \<Rightarrow> string set" where
  "registered trs = registered_from {} trs"

text \<open>The identifiers that some transaction of the sequence adds.\<close>

fun added_ids :: "'p Transaction list \<Rightarrow> string set" where
  "added_ids [] = {}"
| "added_ids (tr # trs) =
     (case getMeta tr of
        Some (ADD_PLACEHOLDER i p v) \<Rightarrow> insert i (added_ids trs)
      | _ \<Rightarrow> added_ids trs)"

text \<open>
  Two conditions on a transaction met in a given plugin state: its mapping reports none
  of the placeholders' positions as deleted; an add action it carries is for an identifier
  that has no payload entry yet. A transaction is well behaved when it meets both.
  \<open>along_run\<close> asks a condition of every transaction of a run, each in the state it is
  applied to.
\<close>

definition drops_none :: "'p Transaction \<Rightarrow> UploadPlaceholderPluginData \<Rightarrow> 'p store \<Rightarrow> bool" where
  "drops_none tr data h = list_all (\<lambda>d. \<not> deleted (mapping tr (deco_from d))) (set_deco data)"

definition adds_new :: "'p Transaction \<Rightarrow> UploadPlaceholderPluginData \<Rightarrow> 'p store \<Rightarrow> bool" where
  "adds_new tr data h =
     (case getMeta tr of
        Some (ADD_PLACEHOLDER i p v) \<Rightarrow> i \<notin> set (Map_keys h (payloads data))
      | _ \<Rightarrow> True)"

fun along_run ::
    "('p Transaction \<Rightarrow> UploadPlaceholderPluginData \<Rightarrow> 'p store \<Rightarrow> bool)
      \<Rightarrow> 'p Transaction list \<Rightarrow> UploadPlaceholderPluginData \<Rightarrow> 'p store \<Rightarrow> bool" where
  "along_run P [] data h = True"
| "along_run P (tr # trs) data h =
     (P tr data h \<and> (case state_apply tr data h of (data', h') \<Rightarrow> along_run P trs data' h'))"

definition well_behaved :: "'p Transaction \<Rightarrow> UploadPlaceholderPluginData \<Rightarrow> 'p store \<Rightarrow> bool" where
  "well_behaved tr data h = (drops_none tr data h \<and> adds_new tr data h)"

definition along_run_init ::
    "('p Transaction \<Rightarrow> UploadPlaceholderPluginData \<Rightarrow> 'p store \<Rightarrow> bool)
      \<Rightarrow> 'p Transaction list \<Rightarrow> 'p store \<Rightarrow> bool" where
  "along_run_init P trs h = (case state_init h of (data, h') \<Rightarrow> along_run P trs data h')"

text \<open>
  The two phases of the specification's transition rule. The remap phase sends the
  decoration set through the transaction's mapping and touches nothing else. The intent
  phase applies the attached action, if there is one: an add appends one widget at the
  action's position and stores the payload under the identifier; a remove takes away the
  decorations that carry the identifier and deletes the identifier's payload entry.
\<close>

definition remap_phase ::
    "'p Transaction \<Rightarrow> UploadPlaceholderPluginData \<Rightarrow> UploadPlaceholderPluginData" where
  "remap_phase tr data = data\<lparr>set_deco := DecorationSet_map (mapping tr) (set_deco data)\<rparr>"

fun intent_phase ::
    "'p PlaceholderPluginAction option \<Rightarrow> UploadPlaceholderPluginData \<Rightarrow> 'p store
      \<Rightarrow> UploadPlaceholderPluginData \<times> 'p store" where
  "intent_phase None data h = (data, h)"
| "intent_phase (Some (ADD_PLACEHOLDER i p v)) data h =
     (data\<lparr>set_deco := set_deco data @ [\<lparr>deco_from = p, spec_id = i\<rparr>]\<rparr>,
      h\<lparr>cells := (cells h)(payloads data := AList.update i v (cells h (payloads data)))\<rparr>)"
| "intent_phase (Some (REMOVE_PLACEHOLDER i)) data h =
     (data\<lparr>set_deco := filter (\<lambda>d. spec_id d \<noteq> i) (set_deco data)\<rparr>,
      h\<lparr>cells := (cells h)(payloads data := AList.delete i (cells h (payloads data)))\<rparr>)"

section \<open>Facts about the model\<close>

subsection \<open>One transaction, case by case\<close>

lemma remove_found:
  "DecorationSet_remove s (DecorationSet_find (\<lambda>j. j = i) s) = filter (\<lambda>d. spec_id d \<noteq> i) s"
  unfolding DecorationSet_remove_def DecorationSet_find_def
  by (rule filter_cong) auto

lemma state_apply_None:
  "getMeta tr = None \<Longrightarrow>
   state_apply tr data h = (data\<lparr>set_deco := DecorationSet_map (mapping tr) (set_deco data)\<rparr>, h)"
  by (cases data) (simp add: state_apply_def Let_def)

lemma state_apply_ADD:
  "getMeta tr = Some (ADD_PLACEHOLDER i p v) \<Longrightarrow>
   state_apply tr data h =
     (data\<lparr>set_deco := DecorationSet_map (mapping tr) (set_deco data) @ [\<lparr>deco_from = p, spec_id = i\<rparr>]\<rparr>,
      h\<lparr>cells := (cells h)(payloads data := AList.update i v (cells h (payloads data)))\<rparr>)"
  by (cases data) (simp add: state_apply_def Let_def Decoration_widget_def DecorationSet_add_def Map_set_def)

lemma state_apply_REMOVE:
  "getMeta tr = Some (REMOVE_PLACEHOLDER i) \<Longrightarrow>
   state_apply tr data h =
     (data\<lparr>set_deco := filter (\<lambda>d. spec_id d \<noteq> i) (DecorationSet_map (mapping tr) (set_deco data))\<rparr>,
      h\<lparr>cells := (cells h)(payloads data := AList.delete i (cells h (payloads data)))\<rparr>)"
  by (cases data) (simp add: state_apply_def Let_def remove_found Map_delete_def)

lemmas state_apply_cases = state_apply_None state_apply_ADD state_apply_REMOVE

lemma action_cases:
  obtains "a = None" | i p v where "a = Some (ADD_PLACEHOLDER i p v)"
  | i where "a = Some (REMOVE_PLACEHOLDER i)"
proof (cases a)
  case None
  then show thesis by (rule that(1))
next
  case (Some x)
  then show thesis by (cases x) (auto intro: that)
qed

lemma payloads_state_apply: "payloads (fst (state_apply tr data h)) = payloads data"
  by (cases "getMeta tr" rule: action_cases) (simp_all add: state_apply_cases)

lemma ids_map_subset: "d \<in> set (DecorationSet_map m s) \<Longrightarrow> spec_id d \<in> spec_id ` set s"
  by (induction s) (auto simp: DecorationSet_map_def map_widget_def Let_def split: if_splits)

lemma ids_map_keep:
  "list_all (\<lambda>d. \<not> deleted (m (deco_from d))) s \<Longrightarrow> map spec_id (DecorationSet_map m s) = map spec_id s"
  by (induction s) (auto simp: DecorationSet_map_def map_widget_def Let_def)

lemma keys_delete: "set (map fst (AList.delete k al)) = set (map fst al) - {k}"
  by (simp add: AList.delete_keys)

lemma keys_update: "set (map fst (AList.update k v al)) = insert k (set (map fst al))"
  using AList.dom_update[of k v al] by simp

lemma payload_ids_state_apply:
  "state_apply tr data h = (data', h') \<Longrightarrow>
   payload_ids h' data' = note_action (getMeta tr) (payload_ids h data)"
  by (cases "getMeta tr" rule: action_cases)
     (auto simp add: state_apply_cases payload_ids_def Map_keys_def keys_update keys_delete
        simp del: set_map)

lemma decoration_ids_state_apply:
  "state_apply tr data h = (data', h') \<Longrightarrow>
   decoration_ids data' \<subseteq> note_action (getMeta tr) (decoration_ids data)"
  by (cases "getMeta tr" rule: action_cases)
     (auto simp: state_apply_cases decoration_ids_def dest: ids_map_subset)

lemma note_action_mono: "A \<subseteq> B \<Longrightarrow> note_action a A \<subseteq> note_action a B"
  by (cases a rule: action_cases) auto

subsection \<open>Identifiers along a run\<close>

lemma payload_ids_run:
  "run trs data h = (data', h') \<Longrightarrow> payload_ids h' data' = registered_from (payload_ids h data) trs"
proof (induction trs arbitrary: data h)
  case Nil
  then show ?case by (simp add: registered_from_def)
next
  case (Cons tr trs)
  obtain d1 h1 where s: "state_apply tr data h = (d1, h1)" by (cases "state_apply tr data h")
  with Cons.prems have "run trs d1 h1 = (data', h')" by simp
  from Cons.IH[OF this] payload_ids_state_apply[OF s] show ?case
    by (simp add: registered_from_def)
qed

lemma ids_subset_run:
  "run trs data h = (data', h') \<Longrightarrow> decoration_ids data \<subseteq> payload_ids h data
    \<Longrightarrow> decoration_ids data' \<subseteq> payload_ids h' data'"
proof (induction trs arbitrary: data h)
  case Nil
  then show ?case by simp
next
  case (Cons tr trs)
  obtain d1 h1 where s: "state_apply tr data h = (d1, h1)" by (cases "state_apply tr data h")
  with Cons.prems have r: "run trs d1 h1 = (data', h')" by simp
  have "decoration_ids d1 \<subseteq> payload_ids h1 d1"
    using decoration_ids_state_apply[OF s] payload_ids_state_apply[OF s]
      note_action_mono[OF Cons.prems(2)] by blast
  from Cons.IH[OF r this] show ?case .
qed

lemma state_init_ids:
  "state_init h = (data, h') \<Longrightarrow> decoration_ids data = {} \<and> payload_ids h' data = {} \<and> cells h' (payloads data) = [] \<and> set_deco data = []"
  by (auto simp: state_init_def new_Map_def decoration_ids_def payload_ids_def Map_keys_def DecorationSet_empty_def)

subsection \<open>Lookups\<close>

lemma find_filter_neq:
  "DecorationSet_find (\<lambda>j. j = i) (filter (\<lambda>d. spec_id d \<noteq> i) s) = []"
  by (induction s) (auto simp: DecorationSet_find_def)

lemma getMeta_set [simp]: "getMeta (setUploadPlaceholderAction tr a) = Some a"
  by (simp add: getMeta_def setUploadPlaceholderAction_def)

lemma mapping_set [simp]: "mapping (setUploadPlaceholderAction tr a) = mapping tr"
  by (simp add: setUploadPlaceholderAction_def)

lemma map_of_delete_same: "map_of (AList.delete k al) k = None"
  by (simp add: AList.delete_conv')

lemma map_of_update_same: "map_of (AList.update k v al) k = Some v"
  by (simp add: AList.update_conv')

lemma state_apply_REMOVE_absent:
  assumes "state_apply (setUploadPlaceholderAction tr (REMOVE_PLACEHOLDER i)) data h = (data', h')"
  shows "findUploadPlaceholderPos (editor data') i = None"
    and "findUploadPlaceholderPayload h' (editor data') i = None"
  using assms
  by (auto simp: state_apply_REMOVE[OF getMeta_set] findUploadPlaceholderPos_def
      findUploadPlaceholderPayload_def key_getState_def editor_def find_filter_neq Map_get_def
      map_of_delete_same)

lemma hasUploadingFile_payload_ids:
  "hasUploadingFile h (editor data) = (payload_ids h data \<noteq> {})"
  by (simp add: hasUploadingFile_def key_getState_def editor_def Map_size_def payload_ids_def
      Map_keys_def)

lemma payload_ids_run_init:
  "run_init trs h0 = (data, h) \<Longrightarrow> payload_ids h data = registered trs"
  by (auto simp: run_init_def registered_def split: prod.splits
      dest!: payload_ids_run state_init_ids)

lemma findPos_None_iff:
  "findUploadPlaceholderPos (editor data) i = None \<longleftrightarrow> i \<notin> decoration_ids data"
proof -
  have "findUploadPlaceholderPos (editor data) i = None \<longleftrightarrow> decorations_of i data = []"
    by (cases "decorations_of i data")
       (simp_all add: findUploadPlaceholderPos_def key_getState_def editor_def decorations_of_def)
  also have "\<dots> \<longleftrightarrow> i \<notin> decoration_ids data"
    by (auto simp: decorations_of_def DecorationSet_find_def decoration_ids_def filter_empty_conv)
  finally show ?thesis .
qed

lemma findPayload_None_iff:
  "findUploadPlaceholderPayload h (editor data) i = None \<longleftrightarrow> i \<notin> payload_ids h data"
  by (simp add: findUploadPlaceholderPayload_def key_getState_def editor_def Map_get_def
      payload_ids_def Map_keys_def map_of_eq_None_iff)

lemma registered_from_added: "registered_from R trs \<subseteq> R \<union> added_ids trs"
proof (induction trs arbitrary: R)
  case Nil
  then show ?case by (simp add: registered_from_def)
next
  case (Cons tr trs)
  have "registered_from R (tr # trs) = registered_from (note_action (getMeta tr) R) trs"
    by (simp add: registered_from_def)
  also have "\<dots> \<subseteq> note_action (getMeta tr) R \<union> added_ids trs"
    by (rule Cons.IH)
  also have "\<dots> \<subseteq> R \<union> added_ids (tr # trs)"
    by (cases "getMeta tr" rule: action_cases) auto
  finally show ?case .
qed

lemma ids_subset_run_init:
  assumes "run_init trs h0 = (data, h)"
  shows "decoration_ids data \<subseteq> payload_ids h data"
proof -
  obtain d0 h1 where i: "state_init h0 = (d0, h1)" by (cases "state_init h0")
  with assms have r: "run trs d0 h1 = (data, h)" by (simp add: run_init_def)
  from state_init_ids[OF i] have "decoration_ids d0 \<subseteq> payload_ids h1 d0" by simp
  from ids_subset_run[OF r this] show ?thesis .
qed

lemma state_apply_REMOVE_unknown:
  assumes "i \<notin> payload_ids h data" "decoration_ids data \<subseteq> payload_ids h data"
  shows "state_apply (setUploadPlaceholderAction tr (REMOVE_PLACEHOLDER i)) data h =
         state_apply (tr\<lparr>meta := None\<rparr>) data h"
proof -
  have k: "i \<notin> fst ` set (cells h (payloads data))"
    using assms(1) by (simp add: payload_ids_def Map_keys_def)
  have "i \<notin> spec_id ` set (set_deco data)"
    using assms by (auto simp: decoration_ids_def)
  then have "\<forall>d \<in> set (DecorationSet_map (mapping tr) (set_deco data)). spec_id d \<noteq> i"
    using ids_map_subset by fastforce
  then have f: "filter (\<lambda>d. spec_id d \<noteq> i) (DecorationSet_map (mapping tr) (set_deco data)) =
      DecorationSet_map (mapping tr) (set_deco data)"
    by (simp add: filter_id_conv)
  have n: "getMeta (tr\<lparr>meta := None\<rparr>) = None" by (simp add: getMeta_def)
  show ?thesis
    by (simp add: state_apply_REMOVE[OF getMeta_set] state_apply_None[OF n] f
        AList.delete_id[OF k])
qed

subsection \<open>Evaluating the model on concrete inputs\<close>

lemmas run_eval = run_init_def state_init_def new_Map_def empty_store_def state_apply_def
  getMeta_def setUploadPlaceholderAction_def Let_def editor_def key_getState_def
  DecorationSet_map_def map_widget_def DecorationSet_add_def DecorationSet_remove_def
  DecorationSet_find_def Decoration_widget_def DecorationSet_empty_def Map_set_def
  Map_delete_def Map_get_def Map_size_def Map_keys_def identity_mapping_def
  insert_mapping_def delete_mapping_def findUploadPlaceholderPos_def
  findUploadPlaceholderPayload_def hasUploadingFile_def decoration_ids_def payload_ids_def
  decorations_of_def payload_entries_of_def

subsection \<open>Decoration sets piece by piece\<close>

lemma map_append: "DecorationSet_map m (s @ t) = DecorationSet_map m s @ DecorationSet_map m t"
  by (induction s) (auto simp: DecorationSet_map_def split: option.splits)

lemma map_single_kept:
  "\<not> deleted (m p) \<Longrightarrow>
   DecorationSet_map m [\<lparr>deco_from = p, spec_id = i\<rparr>] = [\<lparr>deco_from = pos (m p), spec_id = i\<rparr>]"
  by (simp add: DecorationSet_map_def map_widget_def)

lemma find_absent:
  "i \<notin> spec_id ` set s \<Longrightarrow> DecorationSet_find (\<lambda>j. j = i) s = []"
  by (auto simp: DecorationSet_find_def filter_empty_conv)

lemma find_map_absent:
  "i \<notin> spec_id ` set s \<Longrightarrow> DecorationSet_find (\<lambda>j. j = i) (DecorationSet_map m s) = []"
  by (rule find_absent) (auto dest: ids_map_subset)

lemma find_append:
  "DecorationSet_find P (s @ t) = DecorationSet_find P s @ DecorationSet_find P t"
  by (simp add: DecorationSet_find_def)

lemma find_single:
  "DecorationSet_find (\<lambda>j. j = i) [\<lparr>deco_from = p, spec_id = k\<rparr>] =
     (if k = i then [\<lparr>deco_from = p, spec_id = k\<rparr>] else [])"
  by (simp add: DecorationSet_find_def)

lemma findPos_editor:
  "findUploadPlaceholderPos (editor data) i =
     (case DecorationSet_find (\<lambda>j. j = i) (set_deco data) of [] \<Rightarrow> None
      | d # _ \<Rightarrow> Some (deco_from d))"
  by (simp add: findUploadPlaceholderPos_def key_getState_def editor_def)

lemma findPayload_editor:
  "findUploadPlaceholderPayload h (editor data) i = map_of (cells h (payloads data)) i"
  by (simp add: findUploadPlaceholderPayload_def key_getState_def editor_def Map_get_def)

lemma absent_map: "i \<notin> spec_id ` set s \<Longrightarrow> i \<notin> spec_id ` set (DecorationSet_map m s)"
  by (auto dest: ids_map_subset)

lemma find_filter_absent:
  "i \<notin> spec_id ` set s \<Longrightarrow> DecorationSet_find (\<lambda>j. j = i) (filter Q s) = []"
  by (rule find_absent) auto

lemma find_Nil: "DecorationSet_find P [] = []"
  by (simp add: DecorationSet_find_def)

lemma find_Cons:
  "DecorationSet_find P (d # s) =
     (if P (spec_id d) then d # DecorationSet_find P s else DecorationSet_find P s)"
  by (simp add: DecorationSet_find_def)

subsection \<open>Runs whose transactions drop nothing and add only new identifiers\<close>

lemma map_ids_filter:
  "map spec_id (filter (\<lambda>d. spec_id d \<noteq> i) s) = filter (\<lambda>j. j \<noteq> i) (map spec_id s)"
  by (induction s) auto

lemma ids_state_apply_exact:
  assumes "drops_none tr data h" and "state_apply tr data h = (data', h')"
  shows "map spec_id (set_deco data') =
     (case getMeta tr of
        None \<Rightarrow> map spec_id (set_deco data)
      | Some (ADD_PLACEHOLDER i p v) \<Rightarrow> map spec_id (set_deco data) @ [i]
      | Some (REMOVE_PLACEHOLDER i) \<Rightarrow> filter (\<lambda>j. j \<noteq> i) (map spec_id (set_deco data)))"
proof -
  have k: "map spec_id (DecorationSet_map (mapping tr) (set_deco data)) = map spec_id (set_deco data)"
    using assms(1) by (simp add: drops_none_def ids_map_keep)
  show ?thesis
    using assms(2)
    by (cases "getMeta tr" rule: action_cases)
       (auto simp: state_apply_cases k map_ids_filter)
qed

lemma decoration_ids_state_apply_exact:
  assumes "drops_none tr data h" and "state_apply tr data h = (data', h')"
  shows "decoration_ids data' = note_action (getMeta tr) (decoration_ids data)"
  unfolding decoration_ids_def ids_state_apply_exact[OF assms]
  by (cases "getMeta tr" rule: action_cases) auto

lemma in_sync_run:
  "along_run drops_none trs data h \<Longrightarrow> run trs data h = (data', h') \<Longrightarrow>
   decoration_ids data = payload_ids h data \<Longrightarrow> decoration_ids data' = payload_ids h' data'"
proof (induction trs arbitrary: data h)
  case Nil
  then show ?case by simp
next
  case (Cons tr trs)
  obtain d1 h1 where s: "state_apply tr data h = (d1, h1)" by (cases "state_apply tr data h")
  from Cons.prems s have k: "drops_none tr data h" and a: "along_run drops_none trs d1 h1"
    and r: "run trs d1 h1 = (data', h')"
    by simp_all
  have "decoration_ids d1 = payload_ids h1 d1"
    using decoration_ids_state_apply_exact[OF k s] payload_ids_state_apply[OF s] Cons.prems(3)
    by simp
  from Cons.IH[OF a r this] show ?case .
qed

lemma one_entry:
  "distinct (map f xs) \<Longrightarrow> k \<in> f ` set xs \<Longrightarrow> length (filter (\<lambda>x. f x = k) xs) = 1"
proof (induction xs)
  case Nil
  then show ?case by simp
next
  case (Cons x xs)
  show ?case
  proof (cases "f x = k")
    case True
    with Cons.prems(1) have "k \<notin> f ` set xs" by simp
    then have "\<forall>y \<in> set xs. f y \<noteq> k" by blast
    then have "filter (\<lambda>x. f x = k) xs = []" by (simp add: filter_empty_conv)
    with True show ?thesis by simp
  next
    case False
    with Cons show ?thesis by auto
  qed
qed

lemma no_entry: "k \<notin> f ` set xs \<Longrightarrow> filter (\<lambda>x. f x = k) xs = []"
  by (auto simp: filter_empty_conv)

lemma distinct_keys_state_apply:
  assumes "distinct (Map_keys h (payloads data))" and "state_apply tr data h = (data', h')"
  shows "distinct (Map_keys h' (payloads data'))"
  using assms
  by (cases "getMeta tr" rule: action_cases)
     (auto simp: state_apply_cases Map_keys_def AList.distinct_update AList.distinct_delete)

lemma distinct_keys_run:
  "distinct (Map_keys h (payloads data)) \<Longrightarrow> run trs data h = (data', h') \<Longrightarrow>
   distinct (Map_keys h' (payloads data'))"
proof (induction trs arbitrary: data h)
  case Nil
  then show ?case by simp
next
  case (Cons tr trs)
  obtain d1 h1 where s: "state_apply tr data h = (d1, h1)" by (cases "state_apply tr data h")
  with Cons.prems have r: "run trs d1 h1 = (data', h')" by simp
  from Cons.IH[OF distinct_keys_state_apply[OF Cons.prems(1) s] r] show ?case .
qed

lemma one_decoration_state_apply:
  assumes w: "well_behaved tr data h" and s: "state_apply tr data h = (data', h')"
    and d: "distinct (map spec_id (set_deco data))"
    and e: "decoration_ids data = payload_ids h data"
  shows "distinct (map spec_id (set_deco data'))"
proof -
  from w have k: "drops_none tr data h" and n: "adds_new tr data h"
    by (simp_all add: well_behaved_def)
  note x = ids_state_apply_exact[OF k s]
  show ?thesis
  proof (cases "getMeta tr" rule: action_cases)
    case 1
    with x d show ?thesis by simp
  next
    case (2 i p v)
    with n have "i \<notin> payload_ids h data" by (simp add: adds_new_def payload_ids_def)
    with e have "i \<notin> set (map spec_id (set_deco data))" by (simp add: decoration_ids_def)
    with 2 x d show ?thesis by simp
  next
    case (3 i)
    with x d show ?thesis by simp
  qed
qed

lemma one_decoration_run:
  "along_run well_behaved trs data h \<Longrightarrow> run trs data h = (data', h') \<Longrightarrow>
   distinct (map spec_id (set_deco data)) \<Longrightarrow> decoration_ids data = payload_ids h data \<Longrightarrow>
   distinct (map spec_id (set_deco data')) \<and> decoration_ids data' = payload_ids h' data'"
proof (induction trs arbitrary: data h)
  case Nil
  then show ?case by simp
next
  case (Cons tr trs)
  obtain d1 h1 where s: "state_apply tr data h = (d1, h1)" by (cases "state_apply tr data h")
  from Cons.prems s have w: "well_behaved tr data h" and a: "along_run well_behaved trs d1 h1"
    and r: "run trs d1 h1 = (data', h')"
    by simp_all
  from w have k: "drops_none tr data h" by (simp add: well_behaved_def)
  have d: "distinct (map spec_id (set_deco d1))"
    using one_decoration_state_apply[OF w s Cons.prems(3,4)] .
  have e: "decoration_ids d1 = payload_ids h1 d1"
    using decoration_ids_state_apply_exact[OF k s] payload_ids_state_apply[OF s] Cons.prems(4)
    by simp
  from Cons.IH[OF a r d e] show ?case .
qed

lemma map_as_filter:
  "DecorationSet_map m s =
     map (\<lambda>d. d\<lparr>deco_from := pos (m (deco_from d))\<rparr>)
       (filter (\<lambda>d. \<not> deleted (m (deco_from d))) s)"
  by (induction s) (simp_all add: DecorationSet_map_def map_widget_def Let_def)

lemma state_apply_REMOVE_entries:
  assumes "state_apply (setUploadPlaceholderAction tr (REMOVE_PLACEHOLDER i)) data h = (data', h')"
  shows "decorations_of i data' = [] \<and> payload_entries_of i h' data' = []"
  using assms AList.delete_notin_dom[of i "cells h (payloads data)"]
  by (auto simp: state_apply_REMOVE[OF getMeta_set] decorations_of_def payload_entries_of_def
      find_filter_neq filter_empty_conv)

section \<open>The claims\<close>

subsection \<open>The transition rule\<close>

text \<open>
  C1. For every transaction and every plugin state, \<^verbatim>\<open>apply\<close> is the remap phase followed
  by the intent phase: it first sends the decoration set through the transaction's
  mapping, which moves every placeholder the mapping keeps to its mapped position, and
  only then reads the action attached to the transaction and applies it (nothing when
  none is attached) to the state with the remapped set. The payload reference is not
  touched by the remap phase.
\<close>

theorem apply_remaps_then_applies_one_intent:
  "state_apply tr data h = intent_phase (getMeta tr) (remap_phase tr data) h
   \<and> set_deco (remap_phase tr data) =
       map (\<lambda>d. d\<lparr>deco_from := pos (mapping tr (deco_from d))\<rparr>)
         (filter (\<lambda>d. \<not> deleted (mapping tr (deco_from d))) (set_deco data))
   \<and> payloads (remap_phase tr data) = payloads data"
proof -
  have "state_apply tr data h = intent_phase (getMeta tr) (remap_phase tr data) h"
    by (cases "getMeta tr" rule: action_cases) (simp_all add: state_apply_cases remap_phase_def)
  then show ?thesis
    by (simp add: remap_phase_def map_as_filter)
qed

theorem apply_remaps_then_applies_one_intent_witness:
  "state_apply
     (setUploadPlaceholderAction \<lparr>mapping = insert_mapping 2 3, meta = None\<rparr>
        (ADD_PLACEHOLDER ''B'' 4 (1::nat)))
     \<lparr>set_deco = [\<lparr>deco_from = 5, spec_id = ''A''\<rparr>], payloads = 0\<rparr>
     \<lparr>cells = (\<lambda>_. [])(0 := [(''A'', 0)]), next_ref = 1\<rparr>
   = (\<lparr>set_deco = [\<lparr>deco_from = 8, spec_id = ''A''\<rparr>, \<lparr>deco_from = 4, spec_id = ''B''\<rparr>],
        payloads = 0\<rparr>,
      \<lparr>cells = (\<lambda>_. [])(0 := [(''A'', 0), (''B'', 1)]), next_ref = 1\<rparr>)"
  using apply_remaps_then_applies_one_intent
    [of "setUploadPlaceholderAction \<lparr>mapping = insert_mapping 2 3, meta = None\<rparr>
        (ADD_PLACEHOLDER ''B'' 4 (1::nat))"
      "\<lparr>set_deco = [\<lparr>deco_from = 5, spec_id = ''A''\<rparr>], payloads = 0\<rparr>"
      "\<lparr>cells = (\<lambda>_. [])(0 := [(''A'', 0)]), next_ref = 1\<rparr>"]
  by (simp add: remap_phase_def insert_mapping_def)

subsection \<open>Decorations and payloads in step\<close>

text \<open>
  C2, as amended. In every plugin state reached from the initial state, every identifier
  with a decoration has a payload entry. An identifier with a payload entry has a
  decoration as well when no transaction of the run had a mapping that reported the
  position of a placeholder as deleted. A state is read here in the store that its last
  transaction returned. (As stated, with "if and only if" for every reachable state, the
  claim fails: a transaction that deletes the text around a placeholder drops its
  decoration and leaves its payload entry; and the initial state, read after a later
  transaction has added a placeholder, has the payload entry and no decoration.)
\<close>

theorem decorations_have_payloads:
  assumes "run_init trs h0 = (data, h)"
  shows "decoration_ids data \<subseteq> payload_ids h data
     \<and> (along_run_init drops_none trs h0 \<longrightarrow> decoration_ids data = payload_ids h data)"
proof -
  obtain d0 h1 where i: "state_init h0 = (d0, h1)" by (cases "state_init h0")
  with assms have r: "run trs d0 h1 = (data, h)" by (simp add: run_init_def)
  have e: "decoration_ids d0 = payload_ids h1 d0"
    using state_init_ids[OF i] by simp
  have "decoration_ids data = payload_ids h data" if "along_run_init drops_none trs h0"
  proof -
    from that i have "along_run drops_none trs d0 h1" by (simp add: along_run_init_def)
    from in_sync_run[OF this r e] show ?thesis .
  qed
  then show ?thesis
    using ids_subset_run_init[OF assms] by blast
qed

theorem decorations_have_payloads_witness:
  "decoration_ids \<lparr>set_deco = [\<lparr>deco_from = 8, spec_id = ''A''\<rparr>], payloads = 0\<rparr> =
   payload_ids \<lparr>cells = (\<lambda>_. [])(0 := [(''A'', ())]), next_ref = Suc 0\<rparr>
     \<lparr>set_deco = [\<lparr>deco_from = 8, spec_id = ''A''\<rparr>], payloads = 0\<rparr>"
proof -
  let ?trs = "[setUploadPlaceholderAction \<lparr>mapping = identity_mapping, meta = None\<rparr>
         (ADD_PLACEHOLDER ''A'' 5 ()),
       \<lparr>mapping = insert_mapping 2 3, meta = None\<rparr>]"
  have r: "run_init ?trs empty_store =
      (\<lparr>set_deco = [\<lparr>deco_from = 8, spec_id = ''A''\<rparr>], payloads = 0\<rparr>,
       \<lparr>cells = (\<lambda>_. [])(0 := [(''A'', ())]), next_ref = Suc 0\<rparr>)"
    by (simp add: run_eval)
  have a: "along_run_init drops_none ?trs empty_store"
    by (simp add: along_run_init_def drops_none_def run_eval)
  from decorations_have_payloads[OF r] a show ?thesis by blast
qed

theorem sync_lost_when_mapping_deletes:
  "findUploadPlaceholderPos
     (editor (fst (run_init
        [setUploadPlaceholderAction \<lparr>mapping = identity_mapping, meta = None\<rparr>
           (ADD_PLACEHOLDER ''A'' 5 ()),
         \<lparr>mapping = delete_mapping 3 7, meta = None\<rparr>] empty_store))) ''A'' = None
   \<and> findUploadPlaceholderPayload
     (snd (run_init
        [setUploadPlaceholderAction \<lparr>mapping = identity_mapping, meta = None\<rparr>
           (ADD_PLACEHOLDER ''A'' 5 ()),
         \<lparr>mapping = delete_mapping 3 7, meta = None\<rparr>] empty_store))
     (editor (fst (run_init
        [setUploadPlaceholderAction \<lparr>mapping = identity_mapping, meta = None\<rparr>
           (ADD_PLACEHOLDER ''A'' 5 ()),
         \<lparr>mapping = delete_mapping 3 7, meta = None\<rparr>] empty_store))) ''A'' = Some ()
   \<and> decoration_ids (fst (run_init
        [setUploadPlaceholderAction \<lparr>mapping = identity_mapping, meta = None\<rparr>
           (ADD_PLACEHOLDER ''A'' 5 ()),
         \<lparr>mapping = delete_mapping 3 7, meta = None\<rparr>] empty_store)) = {}
   \<and> payload_ids
     (snd (run_init
        [setUploadPlaceholderAction \<lparr>mapping = identity_mapping, meta = None\<rparr>
           (ADD_PLACEHOLDER ''A'' 5 ()),
         \<lparr>mapping = delete_mapping 3 7, meta = None\<rparr>] empty_store))
     (fst (run_init
        [setUploadPlaceholderAction \<lparr>mapping = identity_mapping, meta = None\<rparr>
           (ADD_PLACEHOLDER ''A'' 5 ()),
         \<lparr>mapping = delete_mapping 3 7, meta = None\<rparr>] empty_store)) = {''A''}
   \<and> findUploadPlaceholderPos (editor (fst (run_init [] (empty_store :: unit store)))) ''A'' = None
   \<and> findUploadPlaceholderPayload
     (snd (run_init
        [setUploadPlaceholderAction \<lparr>mapping = identity_mapping, meta = None\<rparr>
           (ADD_PLACEHOLDER ''A'' 5 ())] empty_store))
     (editor (fst (run_init [] (empty_store :: unit store)))) ''A'' = Some ()"
  by (simp add: run_eval)

subsection \<open>One position and one payload for a registered identifier\<close>

text \<open>
  C3, as amended. After every sequence of transactions applied to the initial state: a
  registered identifier has exactly one payload entry; an identifier that is not
  registered (never added, or removed since) has no decoration and no payload entry; a
  registered identifier has exactly one decoration when every transaction of the run was
  well behaved, that is, added only an identifier without a payload entry and had a
  mapping that reported no placeholder position as deleted; and a remove action leaves
  its identifier with no decoration and no payload entry. (As stated the claim fails: a
  second add of a registered identifier gives it two decorations, and a deleting
  transaction leaves it with none.)
\<close>

theorem registered_ids_one_position_one_payload:
  assumes "run_init trs h0 = (data, h)"
  shows "(\<forall>i. i \<in> registered trs \<longrightarrow> length (payload_entries_of i h data) = 1)
     \<and> (\<forall>i. i \<notin> registered trs \<longrightarrow>
           decorations_of i data = [] \<and> payload_entries_of i h data = [])
     \<and> (along_run_init well_behaved trs h0 \<longrightarrow>
           (\<forall>i. i \<in> registered trs \<longrightarrow> length (decorations_of i data) = 1))
     \<and> (\<forall>i tr data' h'.
           state_apply (setUploadPlaceholderAction tr (REMOVE_PLACEHOLDER i)) data h = (data', h')
           \<longrightarrow> decorations_of i data' = [] \<and> payload_entries_of i h' data' = [])"
proof -
  obtain d0 h1 where i: "state_init h0 = (d0, h1)" by (cases "state_init h0")
  with assms have r: "run trs d0 h1 = (data, h)" by (simp add: run_init_def)
  note z = state_init_ids[OF i]
  have reg: "payload_ids h data = registered trs"
    using assms by (rule payload_ids_run_init)
  have sub: "decoration_ids data \<subseteq> registered trs"
    using ids_subset_run_init[OF assms] reg by simp
  have dk: "distinct (map fst (cells h (payloads data)))"
    using distinct_keys_run[OF _ r] z by (simp add: Map_keys_def)
  have one_payload: "length (payload_entries_of i h data) = 1" if "i \<in> registered trs" for i
  proof -
    from that reg have "i \<in> fst ` set (cells h (payloads data))"
      by (simp add: payload_ids_def Map_keys_def)
    from one_entry[OF dk this] show ?thesis by (simp add: payload_entries_of_def)
  qed
  have none: "decorations_of i data = [] \<and> payload_entries_of i h data = []"
    if "i \<notin> registered trs" for i
  proof -
    from that reg have "i \<notin> fst ` set (cells h (payloads data))"
      by (simp add: payload_ids_def Map_keys_def)
    then have "payload_entries_of i h data = []"
      by (simp add: payload_entries_of_def no_entry)
    moreover from that sub have "i \<notin> spec_id ` set (set_deco data)"
      by (auto simp: decoration_ids_def)
    then have "decorations_of i data = []"
      by (simp add: decorations_of_def find_absent)
    ultimately show ?thesis by simp
  qed
  have one_deco: "length (decorations_of i data) = 1"
    if w: "along_run_init well_behaved trs h0" and m: "i \<in> registered trs" for i
  proof -
    from w i have a: "along_run well_behaved trs d0 h1" by (simp add: along_run_init_def)
    have "distinct (map spec_id (set_deco d0))" "decoration_ids d0 = payload_ids h1 d0"
      using z by simp_all
    from one_decoration_run[OF a r this] reg m
    have "distinct (map spec_id (set_deco data))" "i \<in> spec_id ` set (set_deco data)"
      by (simp_all add: decoration_ids_def)
    from one_entry[OF this] show ?thesis
      by (simp add: decorations_of_def DecorationSet_find_def)
  qed
  show ?thesis
    using one_payload none one_deco state_apply_REMOVE_entries by blast
qed

theorem registered_ids_one_position_one_payload_witness:
  "length (decorations_of ''B'' \<lparr>set_deco = [\<lparr>deco_from = 8, spec_id = ''B''\<rparr>], payloads = 0\<rparr>) = 1
   \<and> length (payload_entries_of ''B''
        \<lparr>cells = (\<lambda>_. [])(0 := [(''B'', ())]), next_ref = Suc 0\<rparr>
        \<lparr>set_deco = [\<lparr>deco_from = 8, spec_id = ''B''\<rparr>], payloads = 0\<rparr>) = 1
   \<and> decorations_of ''A'' \<lparr>set_deco = [\<lparr>deco_from = 8, spec_id = ''B''\<rparr>], payloads = 0\<rparr> = []
   \<and> payload_entries_of ''A''
        \<lparr>cells = (\<lambda>_. [])(0 := [(''B'', ())]), next_ref = Suc 0\<rparr>
        \<lparr>set_deco = [\<lparr>deco_from = 8, spec_id = ''B''\<rparr>], payloads = 0\<rparr> = []"
proof -
  let ?trs = "[setUploadPlaceholderAction \<lparr>mapping = identity_mapping, meta = None\<rparr>
         (ADD_PLACEHOLDER ''A'' 5 ()),
       \<lparr>mapping = insert_mapping 2 3, meta = None\<rparr>,
       setUploadPlaceholderAction \<lparr>mapping = identity_mapping, meta = None\<rparr>
         (ADD_PLACEHOLDER ''B'' 8 ()),
       setUploadPlaceholderAction \<lparr>mapping = identity_mapping, meta = None\<rparr>
         (REMOVE_PLACEHOLDER ''A'')]"
  have r: "run_init ?trs empty_store =
      (\<lparr>set_deco = [\<lparr>deco_from = 8, spec_id = ''B''\<rparr>], payloads = 0\<rparr>,
       \<lparr>cells = (\<lambda>_. [])(0 := [(''B'', ())]), next_ref = Suc 0\<rparr>)"
    by (simp add: run_eval)
  have a: "along_run_init well_behaved ?trs empty_store"
    by (simp add: along_run_init_def well_behaved_def drops_none_def adds_new_def run_eval)
  have g: "''B'' \<in> registered ?trs" "''A'' \<notin> registered ?trs"
    by (simp_all add: registered_def registered_from_def getMeta_def
        setUploadPlaceholderAction_def)
  from registered_ids_one_position_one_payload[OF r] a g show ?thesis by blast
qed

theorem second_add_gives_second_decoration:
  "''A'' \<in> registered
      [setUploadPlaceholderAction \<lparr>mapping = identity_mapping, meta = None\<rparr>
         (ADD_PLACEHOLDER ''A'' 1 ()),
       setUploadPlaceholderAction \<lparr>mapping = identity_mapping, meta = None\<rparr>
         (ADD_PLACEHOLDER ''A'' 2 ())]
   \<and> length (decorations_of ''A'' (fst (run_init
      [setUploadPlaceholderAction \<lparr>mapping = identity_mapping, meta = None\<rparr>
         (ADD_PLACEHOLDER ''A'' 1 ()),
       setUploadPlaceholderAction \<lparr>mapping = identity_mapping, meta = None\<rparr>
         (ADD_PLACEHOLDER ''A'' 2 ())] empty_store))) = 2
   \<and> ''A'' \<in> registered
      [setUploadPlaceholderAction \<lparr>mapping = identity_mapping, meta = None\<rparr>
         (ADD_PLACEHOLDER ''A'' 5 ()),
       \<lparr>mapping = delete_mapping 3 7, meta = None\<rparr>]
   \<and> length (decorations_of ''A'' (fst (run_init
      [setUploadPlaceholderAction \<lparr>mapping = identity_mapping, meta = None\<rparr>
         (ADD_PLACEHOLDER ''A'' 5 ()),
       \<lparr>mapping = delete_mapping 3 7, meta = None\<rparr>] empty_store))) = 0"
  by (simp add: run_eval registered_def registered_from_def)

subsection \<open>Add, then remove\<close>

text \<open>
  C4. From any plugin state, a transaction that adds identifier \<open>A\<close> followed by a
  transaction that removes \<open>A\<close> gives a state in which neither
  \<^verbatim>\<open>findUploadPlaceholderPos\<close> nor \<^verbatim>\<open>findUploadPlaceholderPayload\<close> finds \<open>A\<close>.
\<close>

theorem add_then_remove_leaves_nothing:
  "(case state_apply (setUploadPlaceholderAction tr1 (ADD_PLACEHOLDER A p v)) data h of
      (d1, h1) \<Rightarrow>
        (case state_apply (setUploadPlaceholderAction tr2 (REMOVE_PLACEHOLDER A)) d1 h1 of
           (d2, h2) \<Rightarrow>
             findUploadPlaceholderPos (editor d2) A = None \<and>
             findUploadPlaceholderPayload h2 (editor d2) A = None))"
proof -
  obtain d1 h1 where s1:
    "state_apply (setUploadPlaceholderAction tr1 (ADD_PLACEHOLDER A p v)) data h = (d1, h1)"
    by (rule prod.exhaust)
  obtain d2 h2 where s2:
    "state_apply (setUploadPlaceholderAction tr2 (REMOVE_PLACEHOLDER A)) d1 h1 = (d2, h2)"
    by (rule prod.exhaust)
  from state_apply_REMOVE_absent[OF s2] show ?thesis
    by (simp add: s1 s2)
qed

theorem add_then_remove_leaves_nothing_witness:
  "findUploadPlaceholderPos (editor \<lparr>set_deco = [\<lparr>deco_from = 5, spec_id = ''A''\<rparr>], payloads = 0\<rparr>) ''A''
     = Some 5
   \<and> findUploadPlaceholderPayload \<lparr>cells = (\<lambda>_. [])(0 := [(''A'', 7::nat)]), next_ref = 0\<rparr>
       (editor \<lparr>set_deco = [\<lparr>deco_from = 5, spec_id = ''A''\<rparr>], payloads = 0\<rparr>) ''A'' = Some 7
   \<and> findUploadPlaceholderPos (editor \<lparr>set_deco = [], payloads = 0\<rparr>) ''A'' = None
   \<and> findUploadPlaceholderPayload \<lparr>cells = (\<lambda>_. [])(0 := []), next_ref = 0\<rparr>
       (editor \<lparr>set_deco = [], payloads = 0\<rparr>) ''A'' = (None :: nat option)"
proof -
  let ?t = "\<lparr>mapping = identity_mapping, meta = None\<rparr> :: nat Transaction"
  have s1: "state_apply (setUploadPlaceholderAction ?t (ADD_PLACEHOLDER ''A'' 5 7))
      \<lparr>set_deco = [], payloads = 0\<rparr> empty_store
    = (\<lparr>set_deco = [\<lparr>deco_from = 5, spec_id = ''A''\<rparr>], payloads = 0\<rparr>,
       \<lparr>cells = (\<lambda>_. [])(0 := [(''A'', 7)]), next_ref = 0\<rparr>)"
    by (simp add: run_eval)
  have s2: "state_apply (setUploadPlaceholderAction ?t (REMOVE_PLACEHOLDER ''A''))
      \<lparr>set_deco = [\<lparr>deco_from = 5, spec_id = ''A''\<rparr>], payloads = 0\<rparr>
      \<lparr>cells = (\<lambda>_. [])(0 := [(''A'', 7::nat)]), next_ref = 0\<rparr>
    = (\<lparr>set_deco = [], payloads = 0\<rparr>, \<lparr>cells = (\<lambda>_. [])(0 := []), next_ref = 0\<rparr>)"
    by (simp add: run_eval)
  have "findUploadPlaceholderPos (editor \<lparr>set_deco = [\<lparr>deco_from = 5, spec_id = ''A''\<rparr>], payloads = 0\<rparr>) ''A''
     = Some 5
   \<and> findUploadPlaceholderPayload \<lparr>cells = (\<lambda>_. [])(0 := [(''A'', 7::nat)]), next_ref = 0\<rparr>
       (editor \<lparr>set_deco = [\<lparr>deco_from = 5, spec_id = ''A''\<rparr>], payloads = 0\<rparr>) ''A'' = Some 7"
    by (simp add: run_eval)
  with add_then_remove_leaves_nothing
    [where ?tr1.0 = ?t and A = "''A''" and p = 5 and v = 7
       and data = "\<lparr>set_deco = [], payloads = 0\<rparr>" and h = empty_store and ?tr2.0 = ?t]
  show ?thesis
    by (simp add: s1 s2)
qed

subsection \<open>Active uploads\<close>

text \<open>
  C5. After any sequence of transactions applied to the initial plugin state,
  \<^verbatim>\<open>hasUploadingFile\<close> is true exactly when some identifier is registered (added and not
  removed since); on the initial plugin state it is false.
\<close>

theorem hasUploadingFile_iff_registered:
  "(case run_init trs h0 of
      (data, h) \<Rightarrow> hasUploadingFile h (editor data) = (\<exists>i. i \<in> registered trs))
   \<and> (case state_init h0 of (data, h) \<Rightarrow> \<not> hasUploadingFile h (editor data))"
  by (auto simp: hasUploadingFile_payload_ids split: prod.splits
      dest: payload_ids_run_init state_init_ids)

theorem hasUploadingFile_iff_registered_witness:
  "hasUploadingFile \<lparr>cells = (\<lambda>_. [])(0 := [(''A'', ())]), next_ref = Suc 0\<rparr>
     (editor \<lparr>set_deco = [\<lparr>deco_from = 5, spec_id = ''A''\<rparr>], payloads = 0\<rparr>)
   \<and> \<not> hasUploadingFile (\<lparr>cells = (\<lambda>_. [])(0 := []), next_ref = Suc 0\<rparr> :: unit store)
     (editor \<lparr>set_deco = [], payloads = 0\<rparr>)"
proof -
  let ?a = "setUploadPlaceholderAction \<lparr>mapping = identity_mapping, meta = None\<rparr>
      (ADD_PLACEHOLDER ''A'' 5 ())"
  let ?r = "setUploadPlaceholderAction \<lparr>mapping = identity_mapping, meta = None\<rparr>
      (REMOVE_PLACEHOLDER ''A'')"
  have r1: "run_init [?a] empty_store =
      (\<lparr>set_deco = [\<lparr>deco_from = 5, spec_id = ''A''\<rparr>], payloads = 0\<rparr>,
       \<lparr>cells = (\<lambda>_. [])(0 := [(''A'', ())]), next_ref = Suc 0\<rparr>)"
    by (simp add: run_eval)
  have r2: "run_init [?a, ?r] empty_store =
      (\<lparr>set_deco = [], payloads = 0\<rparr>, \<lparr>cells = (\<lambda>_. [])(0 := []), next_ref = Suc 0\<rparr>)"
    by (simp add: run_eval)
  have g: "''A'' \<in> registered [?a]" "registered [?a, ?r] = {}"
    by (simp_all add: registered_def registered_from_def)
  from hasUploadingFile_iff_registered[of "[?a]" empty_store]
    hasUploadingFile_iff_registered[of "[?a, ?r]" empty_store] g
  show ?thesis
    by (auto simp: r1 r2)
qed

subsection \<open>A placeholder moves with an insertion before it\<close>

text \<open>
  C6. After identifier \<open>A\<close>, which has no decoration yet, is added at position \<open>p\<close>, a
  transaction that inserts \<open>n\<close> characters at a position \<open>q\<close> before \<open>p\<close> and carries no
  action gives a state in which \<^verbatim>\<open>findUploadPlaceholderPos\<close> finds \<open>A\<close> at \<open>p + n\<close>: at
  \<open>8\<close> for position \<open>5\<close> and \<open>3\<close> characters.
\<close>

theorem placeholder_shifts_with_insertion:
  assumes "A \<notin> decoration_ids data" and "q < p"
    and "state_apply (setUploadPlaceholderAction tr (ADD_PLACEHOLDER A p v)) data h = (d1, h1)"
    and "state_apply \<lparr>mapping = insert_mapping q n, meta = None\<rparr> d1 h1 = (d2, h2)"
  shows "findUploadPlaceholderPos (editor d2) A = Some (p + n)"
proof -
  have a: "A \<notin> spec_id ` set (set_deco data)"
    using assms(1) by (simp add: decoration_ids_def)
  have d1: "set_deco d1 =
      DecorationSet_map (mapping tr) (set_deco data) @ [\<lparr>deco_from = p, spec_id = A\<rparr>]"
    using assms(3) by (auto simp: state_apply_ADD[OF getMeta_set])
  have a1: "A \<notin> spec_id ` set (DecorationSet_map (mapping tr) (set_deco data))"
    using a by (auto dest: ids_map_subset)
  have n: "getMeta \<lparr>mapping = insert_mapping q n, meta = None\<rparr> = None"
    by (simp add: getMeta_def)
  have m: "DecorationSet_map (insert_mapping q n) [\<lparr>deco_from = p, spec_id = A\<rparr>] =
      [\<lparr>deco_from = p + n, spec_id = A\<rparr>]"
    using assms(2) by (simp add: map_single_kept insert_mapping_def)
  have "set_deco d2 = DecorationSet_map (insert_mapping q n) (set_deco d1)"
    using assms(4) by (auto simp: state_apply_None[OF n])
  then show ?thesis
    by (simp add: findPos_editor d1 map_append find_append find_map_absent[OF a1] m find_single)
qed

theorem placeholder_shifts_with_insertion_witness:
  "findUploadPlaceholderPos
     (editor (fst (run_init
        [setUploadPlaceholderAction \<lparr>mapping = identity_mapping, meta = None\<rparr>
           (ADD_PLACEHOLDER ''A'' 5 ()),
         \<lparr>mapping = insert_mapping 2 3, meta = None\<rparr>] empty_store))) ''A'' = Some 8"
proof -
  have i: "state_init (empty_store :: unit store) =
      (\<lparr>set_deco = [], payloads = 0\<rparr>, \<lparr>cells = (\<lambda>_. []), next_ref = Suc 0\<rparr>)"
    by (simp add: run_eval fun_eq_iff)
  have n: "''A'' \<notin> decoration_ids \<lparr>set_deco = [], payloads = 0\<rparr>"
    by (simp add: decoration_ids_def)
  have q: "(2::int) < 5" by simp
  obtain d1 h1 where s1: "state_apply (setUploadPlaceholderAction
      \<lparr>mapping = identity_mapping, meta = None\<rparr> (ADD_PLACEHOLDER ''A'' 5 ()))
      \<lparr>set_deco = [], payloads = 0\<rparr> \<lparr>cells = (\<lambda>_. []), next_ref = Suc 0\<rparr> = (d1, h1)"
    by (rule prod.exhaust)
  obtain d2 h2 where s2:
    "state_apply \<lparr>mapping = insert_mapping 2 3, meta = None\<rparr> d1 h1 = (d2, h2)"
    by (rule prod.exhaust)
  have "findUploadPlaceholderPos (editor d2) ''A'' = Some (5 + 3)"
    using n q s1 s2 by (rule placeholder_shifts_with_insertion)
  then show ?thesis
    by (simp add: run_init_def i s1 s2)
qed

subsection \<open>Lookups of unknown identifiers\<close>

text \<open>
  C7. For every editor state and identifier, both lookups return a value or \<^const>\<open>None\<close>,
  never anything else: without the plugin's field both are \<^const>\<open>None\<close>; with it,
  \<^verbatim>\<open>findUploadPlaceholderPos\<close> is \<^const>\<open>None\<close> exactly when no decoration carries the
  identifier and \<^verbatim>\<open>findUploadPlaceholderPayload\<close> is \<^const>\<open>None\<close> exactly when the payload
  map has no entry for it.
\<close>

theorem lookup_of_unknown_id_is_absent:
  "(case key_getState state of
      None \<Rightarrow>
        findUploadPlaceholderPos state i = None \<and>
        findUploadPlaceholderPayload h state i = None
    | Some data \<Rightarrow>
        (findUploadPlaceholderPos state i = None \<longleftrightarrow> i \<notin> decoration_ids data) \<and>
        (findUploadPlaceholderPayload h state i = None \<longleftrightarrow> i \<notin> payload_ids h data))"
proof (cases "key_getState state")
  case None
  then show ?thesis
    by (simp add: findUploadPlaceholderPos_def findUploadPlaceholderPayload_def)
next
  case (Some data)
  then have "state = editor data"
    by (cases state) (simp add: key_getState_def editor_def)
  with Some show ?thesis
    by (simp add: findPos_None_iff findPayload_None_iff)
qed

theorem lookup_of_unknown_id_is_absent_witness:
  "findUploadPlaceholderPos
      (editor (fst (run_init [\<lparr>mapping = identity_mapping, meta = Some (ADD_PLACEHOLDER ''A'' 5 ())\<rparr>] empty_store))) ''B'' = None
   \<and> findUploadPlaceholderPayload
      (snd (run_init [\<lparr>mapping = identity_mapping, meta = Some (ADD_PLACEHOLDER ''A'' 5 ())\<rparr>] empty_store))
      (editor (fst (run_init [\<lparr>mapping = identity_mapping, meta = Some (ADD_PLACEHOLDER ''A'' 5 ())\<rparr>] empty_store))) ''B'' = None
   \<and> findUploadPlaceholderPos
      (editor (fst (run_init [\<lparr>mapping = identity_mapping, meta = Some (ADD_PLACEHOLDER ''A'' 5 ())\<rparr>] empty_store))) ''A'' = Some 5"
  using lookup_of_unknown_id_is_absent
    [of "editor (fst (run_init [\<lparr>mapping = identity_mapping, meta = Some (ADD_PLACEHOLDER ''A'' 5 ())\<rparr>] empty_store))"
        "''B''"
        "snd (run_init [\<lparr>mapping = identity_mapping, meta = Some (ADD_PLACEHOLDER ''A'' 5 ())\<rparr>] empty_store)"]
  by (simp add: run_init_def state_init_def new_Map_def empty_store_def state_apply_def getMeta_def
      Let_def editor_def key_getState_def decoration_ids_def payload_ids_def Map_keys_def
      DecorationSet_map_def map_widget_def identity_mapping_def DecorationSet_add_def
      Decoration_widget_def Map_set_def DecorationSet_empty_def findUploadPlaceholderPos_def
      DecorationSet_find_def)

subsection \<open>Removing an identifier that was never added\<close>

text \<open>
  C8. In a state reached from the initial state by transactions none of which adds
  identifier \<open>i\<close>, a transaction that removes \<open>i\<close> gives the same plugin state and the
  same store as the same transaction with no action attached.
\<close>

theorem remove_of_never_added_is_noop:
  assumes "i \<notin> added_ids trs" and "run_init trs h0 = (data, h)"
  shows "state_apply (setUploadPlaceholderAction tr (REMOVE_PLACEHOLDER i)) data h =
         state_apply (tr\<lparr>meta := None\<rparr>) data h"
proof -
  have "payload_ids h data = registered trs"
    using assms(2) by (rule payload_ids_run_init)
  moreover have "registered trs \<subseteq> added_ids trs"
    using registered_from_added[of "{}" trs] by (simp add: registered_def)
  ultimately have "i \<notin> payload_ids h data"
    using assms(1) by blast
  then show ?thesis
    using ids_subset_run_init[OF assms(2)] by (rule state_apply_REMOVE_unknown)
qed

theorem remove_of_never_added_is_noop_witness:
  "''B'' \<notin> added_ids [\<lparr>mapping = identity_mapping, meta = Some (ADD_PLACEHOLDER ''A'' 5 ())\<rparr>]
   \<and> state_apply
        (setUploadPlaceholderAction \<lparr>mapping = insert_mapping 2 3, meta = None\<rparr>
           (REMOVE_PLACEHOLDER ''B''))
        \<lparr>set_deco = [\<lparr>deco_from = 5, spec_id = ''A''\<rparr>], payloads = 0\<rparr>
        \<lparr>cells = (\<lambda>_. [])(0 := [(''A'', ())]), next_ref = 1\<rparr>
     = (\<lparr>set_deco = [\<lparr>deco_from = 8, spec_id = ''A''\<rparr>], payloads = 0\<rparr>,
        \<lparr>cells = (\<lambda>_. [])(0 := [(''A'', ())]), next_ref = 1\<rparr>)"
proof -
  have a: "''B'' \<notin> added_ids [\<lparr>mapping = identity_mapping, meta = Some (ADD_PLACEHOLDER ''A'' 5 ())\<rparr>]"
    by (simp add: getMeta_def)
  have r: "run_init [\<lparr>mapping = identity_mapping, meta = Some (ADD_PLACEHOLDER ''A'' 5 ())\<rparr>] empty_store
      = (\<lparr>set_deco = [\<lparr>deco_from = 5, spec_id = ''A''\<rparr>], payloads = 0\<rparr>,
         \<lparr>cells = (\<lambda>_. [])(0 := [(''A'', ())]), next_ref = 1\<rparr>)"
    by (simp add: run_eval)
  show ?thesis
    using a remove_of_never_added_is_noop[OF a r, of "\<lparr>mapping = insert_mapping 2 3, meta = None\<rparr>"]
    by (simp add: run_eval)
qed

subsection \<open>Two identifiers at one position\<close>

text \<open>
  C9. Let \<open>A\<close> and \<open>B\<close> be different identifiers without decorations, added one after the
  other at the same position \<open>p\<close> (the second transaction leaves \<open>p\<close> in place). Then each
  lookup answers for each identifier on its own: both positions are \<open>p\<close>, the payloads are
  the two that were given. Removing \<open>A\<close> leaves \<open>B\<close> with its position and payload and
  \<open>A\<close> with neither, and removing \<open>B\<close> instead does the same with the roles swapped.
\<close>

theorem two_ids_at_one_position:
  assumes ne: "A \<noteq> B"
    and a: "A \<notin> decoration_ids data" and b: "B \<notin> decoration_ids data"
    and m2: "\<not> deleted (mapping tr2 p)" "pos (mapping tr2 p) = p"
    and m3: "\<not> deleted (mapping tr3 p)"
    and s1: "state_apply (setUploadPlaceholderAction tr1 (ADD_PLACEHOLDER A p va)) data h = (d1, h1)"
    and s2: "state_apply (setUploadPlaceholderAction tr2 (ADD_PLACEHOLDER B p vb)) d1 h1 = (d2, h2)"
    and sA: "state_apply (setUploadPlaceholderAction tr3 (REMOVE_PLACEHOLDER A)) d2 h2 = (dA, hA)"
    and sB: "state_apply (setUploadPlaceholderAction tr3 (REMOVE_PLACEHOLDER B)) d2 h2 = (dB, hB)"
  shows "findUploadPlaceholderPos (editor d2) A = Some p
    \<and> findUploadPlaceholderPos (editor d2) B = Some p
    \<and> findUploadPlaceholderPayload h2 (editor d2) A = Some va
    \<and> findUploadPlaceholderPayload h2 (editor d2) B = Some vb
    \<and> findUploadPlaceholderPos (editor dA) A = None
    \<and> findUploadPlaceholderPayload hA (editor dA) A = None
    \<and> findUploadPlaceholderPos (editor dA) B = Some (pos (mapping tr3 p))
    \<and> findUploadPlaceholderPayload hA (editor dA) B = Some vb
    \<and> findUploadPlaceholderPos (editor dB) B = None
    \<and> findUploadPlaceholderPayload hB (editor dB) B = None
    \<and> findUploadPlaceholderPos (editor dB) A = Some (pos (mapping tr3 p))
    \<and> findUploadPlaceholderPayload hB (editor dB) A = Some va"
proof -
  define S1 where "S1 = DecorationSet_map (mapping tr1) (set_deco data)"
  define S2 where "S2 = DecorationSet_map (mapping tr2) S1"
  define S3 where "S3 = DecorationSet_map (mapping tr3) S2"
  define wA where "wA = \<lparr>deco_from = p, spec_id = A\<rparr>"
  define wB where "wB = \<lparr>deco_from = p, spec_id = B\<rparr>"
  define q where "q = pos (mapping tr3 p)"
  have a0: "A \<notin> spec_id ` set (set_deco data)" and b0: "B \<notin> spec_id ` set (set_deco data)"
    using a b by (simp_all add: decoration_ids_def)
  have a1: "A \<notin> spec_id ` set S1" and b1: "B \<notin> spec_id ` set S1"
    unfolding S1_def using a0 b0 by (simp_all add: absent_map)
  have a2: "A \<notin> spec_id ` set S2" and b2: "B \<notin> spec_id ` set S2"
    unfolding S2_def using a1 b1 by (simp_all add: absent_map)
  have a3: "A \<notin> spec_id ` set S3" and b3: "B \<notin> spec_id ` set S3"
    unfolding S3_def using a2 b2 by (simp_all add: absent_map)
  have e1: "set_deco d1 = S1 @ [wA]" and p1: "payloads d1 = payloads data"
    and c1: "cells h1 (payloads data) = AList.update A va (cells h (payloads data))"
    using s1 by (auto simp: state_apply_ADD[OF getMeta_set] S1_def wA_def)
  have e2: "set_deco d2 = S2 @ [wA, wB]" and p2: "payloads d2 = payloads data"
    and c2: "cells h2 (payloads data) =
      AList.update B vb (AList.update A va (cells h (payloads data)))"
    using s2 m2
    by (auto simp: state_apply_ADD[OF getMeta_set] e1 p1 c1 S2_def wA_def wB_def map_append
        map_single_kept)
  have m3': "DecorationSet_map (mapping tr3) (S2 @ [wA, wB]) =
      S3 @ [\<lparr>deco_from = q, spec_id = A\<rparr>, \<lparr>deco_from = q, spec_id = B\<rparr>]"
    using m3 map_append[of "mapping tr3" "[wA]" "[wB]"]
    by (simp add: map_append S3_def wA_def wB_def map_single_kept q_def)
  have eA: "set_deco dA = filter (\<lambda>d. spec_id d \<noteq> A) S3 @ [\<lparr>deco_from = q, spec_id = B\<rparr>]"
    and pA: "payloads dA = payloads data"
    and cA: "cells hA (payloads data) =
      AList.delete A (AList.update B vb (AList.update A va (cells h (payloads data))))"
    using sA ne by (auto simp: state_apply_REMOVE[OF getMeta_set] e2 p2 c2 m3')
  have eB: "set_deco dB = filter (\<lambda>d. spec_id d \<noteq> B) S3 @ [\<lparr>deco_from = q, spec_id = A\<rparr>]"
    and pB: "payloads dB = payloads data"
    and cB: "cells hB (payloads data) =
      AList.delete B (AList.update B vb (AList.update A va (cells h (payloads data))))"
    using sB ne by (auto simp: state_apply_REMOVE[OF getMeta_set] e2 p2 c2 m3')
  have f2: "findUploadPlaceholderPos (editor d2) A = Some p"
    "findUploadPlaceholderPos (editor d2) B = Some p"
    using ne by (simp_all add: findPos_editor e2 find_append find_absent[OF a2]
        find_absent[OF b2] find_Cons find_Nil wA_def wB_def)
  have g2: "findUploadPlaceholderPayload h2 (editor d2) A = Some va"
    "findUploadPlaceholderPayload h2 (editor d2) B = Some vb"
    using ne by (simp_all add: findPayload_editor p2 c2 AList.update_conv')
  have fA: "findUploadPlaceholderPos (editor dA) A = None"
    "findUploadPlaceholderPos (editor dA) B = Some q"
    using ne by (simp_all add: findPos_editor eA find_append find_filter_neq
        find_filter_absent[OF b3] find_single)
  have gA: "findUploadPlaceholderPayload hA (editor dA) A = None"
    "findUploadPlaceholderPayload hA (editor dA) B = Some vb"
    using ne by (simp_all add: findPayload_editor pA cA AList.update_conv' AList.delete_conv')
  have fB: "findUploadPlaceholderPos (editor dB) B = None"
    "findUploadPlaceholderPos (editor dB) A = Some q"
    using ne by (simp_all add: findPos_editor eB find_append find_filter_neq
        find_filter_absent[OF a3] find_single)
  have gB: "findUploadPlaceholderPayload hB (editor dB) B = None"
    "findUploadPlaceholderPayload hB (editor dB) A = Some va"
    using ne by (simp_all add: findPayload_editor pB cB AList.update_conv' AList.delete_conv')
  show ?thesis
    using f2 g2 fA gA fB gB by (simp add: q_def)
qed

theorem two_ids_at_one_position_witness:
  "findUploadPlaceholderPos
     (editor \<lparr>set_deco = [\<lparr>deco_from = 5, spec_id = ''A''\<rparr>, \<lparr>deco_from = 5, spec_id = ''B''\<rparr>],
        payloads = 0\<rparr>) ''A'' = Some 5
   \<and> findUploadPlaceholderPos
     (editor \<lparr>set_deco = [\<lparr>deco_from = 5, spec_id = ''A''\<rparr>, \<lparr>deco_from = 5, spec_id = ''B''\<rparr>],
        payloads = 0\<rparr>) ''B'' = Some 5
   \<and> findUploadPlaceholderPos
     (editor \<lparr>set_deco = [\<lparr>deco_from = 5, spec_id = ''B''\<rparr>], payloads = 0\<rparr>) ''A'' = None
   \<and> findUploadPlaceholderPos
     (editor \<lparr>set_deco = [\<lparr>deco_from = 5, spec_id = ''B''\<rparr>], payloads = 0\<rparr>) ''B'' = Some 5
   \<and> findUploadPlaceholderPayload
     \<lparr>cells = (\<lambda>_. [])(0 := [(''B'', 2::nat)]), next_ref = 0\<rparr>
     (editor \<lparr>set_deco = [\<lparr>deco_from = 5, spec_id = ''B''\<rparr>], payloads = 0\<rparr>) ''B'' = Some 2
   \<and> findUploadPlaceholderPos
     (editor \<lparr>set_deco = [\<lparr>deco_from = 5, spec_id = ''A''\<rparr>], payloads = 0\<rparr>) ''A'' = Some 5
   \<and> findUploadPlaceholderPayload
     \<lparr>cells = (\<lambda>_. [])(0 := [(''A'', 1::nat)]), next_ref = 0\<rparr>
     (editor \<lparr>set_deco = [\<lparr>deco_from = 5, spec_id = ''A''\<rparr>], payloads = 0\<rparr>) ''B'' = None"
proof -
  let ?t = "\<lparr>mapping = identity_mapping, meta = None\<rparr> :: nat Transaction"
  let ?d0 = "\<lparr>set_deco = [], payloads = 0\<rparr>"
  let ?d1 = "\<lparr>set_deco = [\<lparr>deco_from = 5, spec_id = ''A''\<rparr>], payloads = 0\<rparr>"
  let ?d2 = "\<lparr>set_deco = [\<lparr>deco_from = 5, spec_id = ''A''\<rparr>, \<lparr>deco_from = 5, spec_id = ''B''\<rparr>],
      payloads = 0\<rparr>"
  let ?dA = "\<lparr>set_deco = [\<lparr>deco_from = 5, spec_id = ''B''\<rparr>], payloads = 0\<rparr>"
  let ?h1 = "\<lparr>cells = (\<lambda>_. [])(0 := [(''A'', 1::nat)]), next_ref = 0\<rparr>"
  let ?h2 = "\<lparr>cells = (\<lambda>_. [])(0 := [(''A'', 1::nat), (''B'', 2)]), next_ref = 0\<rparr>"
  let ?hA = "\<lparr>cells = (\<lambda>_. [])(0 := [(''B'', 2::nat)]), next_ref = 0\<rparr>"
  have ne: "''A'' \<noteq> ''B''" by simp
  have a: "''A'' \<notin> decoration_ids ?d0" and b: "''B'' \<notin> decoration_ids ?d0"
    by (simp_all add: decoration_ids_def)
  have m: "\<not> deleted (mapping ?t 5)" "pos (mapping ?t 5) = 5"
    by (simp_all add: identity_mapping_def)
  have s1: "state_apply (setUploadPlaceholderAction ?t (ADD_PLACEHOLDER ''A'' 5 1)) ?d0 empty_store
      = (?d1, ?h1)"
    by (simp add: run_eval)
  have s2: "state_apply (setUploadPlaceholderAction ?t (ADD_PLACEHOLDER ''B'' 5 2)) ?d1 ?h1
      = (?d2, ?h2)"
    by (simp add: run_eval)
  have sA: "state_apply (setUploadPlaceholderAction ?t (REMOVE_PLACEHOLDER ''A'')) ?d2 ?h2
      = (?dA, ?hA)"
    by (simp add: run_eval)
  have sB: "state_apply (setUploadPlaceholderAction ?t (REMOVE_PLACEHOLDER ''B'')) ?d2 ?h2
      = (?d1, ?h1)"
    by (simp add: run_eval)
  from two_ids_at_one_position[OF ne a b m m(1) s1 s2 sA sB]
  show ?thesis by (simp add: identity_mapping_def)
qed

subsection \<open>The payload map is shared\<close>

text \<open>
  C10. The state \<^verbatim>\<open>apply\<close> returns holds the same \<^verbatim>\<open>Map\<close> reference as the state it was
  given, so in the store after the transaction the earlier state and the later state
  answer every payload lookup alike: the earlier state sees a payload the transaction
  added and no longer sees one it removed. The decoration set is a new value: the earlier
  state does not see the decoration the transaction added, the later state does.
\<close>

theorem payload_map_is_shared_between_states:
  assumes "state_apply tr data h = (data', h')"
  shows "payloads data' = payloads data
    \<and> (\<forall>i. findUploadPlaceholderPayload h' (editor data) i =
            findUploadPlaceholderPayload h' (editor data') i)
    \<and> (\<forall>i p v. getMeta tr = Some (ADD_PLACEHOLDER i p v) \<longrightarrow>
          findUploadPlaceholderPayload h' (editor data) i = Some v)
    \<and> (\<forall>i. getMeta tr = Some (REMOVE_PLACEHOLDER i) \<longrightarrow>
          findUploadPlaceholderPayload h' (editor data) i = None)
    \<and> (\<forall>i p v. getMeta tr = Some (ADD_PLACEHOLDER i p v) \<and> i \<notin> decoration_ids data \<longrightarrow>
          findUploadPlaceholderPos (editor data) i = None \<and>
          findUploadPlaceholderPos (editor data') i = Some p)"
proof -
  have p: "payloads data' = payloads data"
    using payloads_state_apply[of tr data h] assms by simp
  have add: "findUploadPlaceholderPayload h' (editor data) i = Some v"
    if "getMeta tr = Some (ADD_PLACEHOLDER i p v)" for i p v
    using assms by (auto simp: state_apply_ADD[OF that] findPayload_editor map_of_update_same)
  have rem: "findUploadPlaceholderPayload h' (editor data) i = None"
    if "getMeta tr = Some (REMOVE_PLACEHOLDER i)" for i
    using assms by (auto simp: state_apply_REMOVE[OF that] findPayload_editor map_of_delete_same)
  have pos: "findUploadPlaceholderPos (editor data) i = None \<and>
      findUploadPlaceholderPos (editor data') i = Some p"
    if "getMeta tr = Some (ADD_PLACEHOLDER i p v)" "i \<notin> decoration_ids data" for i p v
  proof -
    have "i \<notin> spec_id ` set (set_deco data)"
      using that(2) by (simp add: decoration_ids_def)
    then show ?thesis
      using assms
      by (auto simp: state_apply_ADD[OF that(1)] findPos_editor find_append find_map_absent
          find_absent find_single)
  qed
  show ?thesis
    using p add rem pos by (simp add: findPayload_editor)
qed

theorem payload_map_is_shared_between_states_witness:
  "state_apply (setUploadPlaceholderAction \<lparr>mapping = identity_mapping, meta = None\<rparr>
       (ADD_PLACEHOLDER ''A'' 5 (7::nat)))
     \<lparr>set_deco = [], payloads = 0\<rparr> empty_store
   = (\<lparr>set_deco = [\<lparr>deco_from = 5, spec_id = ''A''\<rparr>], payloads = 0\<rparr>,
      \<lparr>cells = (\<lambda>_. [])(0 := [(''A'', 7)]), next_ref = 0\<rparr>)
   \<and> findUploadPlaceholderPayload \<lparr>cells = (\<lambda>_. [])(0 := [(''A'', 7::nat)]), next_ref = 0\<rparr>
        (editor \<lparr>set_deco = [], payloads = 0\<rparr>) ''A'' = Some 7
   \<and> findUploadPlaceholderPayload (empty_store :: nat store)
        (editor \<lparr>set_deco = [], payloads = 0\<rparr>) ''A'' = None
   \<and> findUploadPlaceholderPos (editor \<lparr>set_deco = [], payloads = 0\<rparr>) ''A'' = None"
proof -
  have s: "state_apply (setUploadPlaceholderAction \<lparr>mapping = identity_mapping, meta = None\<rparr>
       (ADD_PLACEHOLDER ''A'' 5 (7::nat)))
     \<lparr>set_deco = [], payloads = 0\<rparr> empty_store
   = (\<lparr>set_deco = [\<lparr>deco_from = 5, spec_id = ''A''\<rparr>], payloads = 0\<rparr>,
      \<lparr>cells = (\<lambda>_. [])(0 := [(''A'', 7)]), next_ref = 0\<rparr>)"
    by (simp add: run_eval)
  have g: "getMeta (setUploadPlaceholderAction \<lparr>mapping = identity_mapping, meta = None\<rparr>
       (ADD_PLACEHOLDER ''A'' 5 (7::nat))) = Some (ADD_PLACEHOLDER ''A'' 5 7)"
    by simp
  have n: "''A'' \<notin> decoration_ids \<lparr>set_deco = [], payloads = 0\<rparr>"
    by (simp add: decoration_ids_def)
  from payload_map_is_shared_between_states[OF s] g n
  have "findUploadPlaceholderPayload \<lparr>cells = (\<lambda>_. [])(0 := [(''A'', 7::nat)]), next_ref = 0\<rparr>
        (editor \<lparr>set_deco = [], payloads = 0\<rparr>) ''A'' = Some 7
      \<and> findUploadPlaceholderPos (editor \<lparr>set_deco = [], payloads = 0\<rparr>) ''A'' = None"
    by blast
  moreover have "findUploadPlaceholderPayload (empty_store :: nat store)
        (editor \<lparr>set_deco = [], payloads = 0\<rparr>) ''A'' = None"
    by (simp add: run_eval)
  ultimately show ?thesis using s by simp
qed

end
